theory Spec2Isabelle
  imports Main
begin

section \<open>Text: the string operations app.py uses\<close>

text \<open>
  A Python \<open>str\<close> is modelled as a \<open>string\<close>, the bytes of its UTF-8
  encoding; the full stop is one byte there and occurs in no other character. The
  application calls three string methods: \<open>rsplit\<close> (always with
  \<open>maxsplit = 1\<close>), \<open>lower\<close> and \<open>strip\<close>. The last two belong to Python
  and act on the whole of Unicode (\<open>lower\<close> sends the Kelvin sign to k,
  \<open>strip\<close> removes the no-break space): they are not written out here but
  taken as they come, as the functions \<open>str_lower\<close> and \<open>str_strip\<close> of the
  configuration below, and every statement about the code holds for whatever they
  are, or says which fact about them it uses.
\<close>

datatype exn = IndexError | IsADirectoryError | FileNotFoundError | OSError

text \<open>\<open>s.rsplit(sep, 1)\<close>: one split at the last separator, or the string alone.\<close>

definition rsplit :: "string \<Rightarrow> char \<Rightarrow> string list" where
  "rsplit s sep =
     (if sep \<in> set s
      then [rev (tl (dropWhile (\<lambda>c. c \<noteq> sep) (rev s))),
            rev (takeWhile (\<lambda>c. c \<noteq> sep) (rev s))]
      else [s])"

text \<open>\<open>xs[i]\<close> for an index that is not negative; out of range it raises.\<close>

definition getitem :: "'a list \<Rightarrow> nat \<Rightarrow> exn + 'a" where
  "getitem xs i = (if i < length xs then Inr (xs ! i) else Inl IndexError)"

section \<open>Extensions and media types\<close>

text \<open>The dictionary \<open>ALLOWED_EXTENSIONS\<close>, and \<open>key in dict\<close>.\<close>

definition ALLOWED_EXTENSIONS :: "string \<rightharpoonup> string" where
  "ALLOWED_EXTENSIONS =
     map_of
       [(''pdf'', ''pdf''),
        (''jpg'', ''image''), (''jpeg'', ''image''), (''png'', ''image''),
        (''gif'', ''image''), (''webp'', ''image''),
        (''mp4'', ''video''), (''avi'', ''video''), (''mov'', ''video''),
        (''mkv'', ''video''), (''webm'', ''video'')]"

definition contains_key :: "('k \<rightharpoonup> 'v) \<Rightarrow> 'k \<Rightarrow> bool" where
  "contains_key d k = (d k \<noteq> None)"

text \<open>
  \<open>allowed_file\<close>, with Python's \<open>lower\<close> as the argument \<open>lw\<close>: the
  \<open>and\<close> of the source evaluates its right operand only when the file name has
  a dot; the subscript \<open>[1]\<close> is the one place that can raise.
\<close>

definition allowed_file :: "(string \<Rightarrow> string) \<Rightarrow> string \<Rightarrow> exn + bool" where
  "allowed_file lw filename =
     (if CHR ''.'' \<in> set filename
      then (case getitem (rsplit filename (CHR ''.'')) 1 of
              Inl e \<Rightarrow> Inl e
            | Inr suffix \<Rightarrow> Inr (contains_key ALLOWED_EXTENSIONS (lw suffix)))
      else Inr False)"

definition get_file_type_from_ext :: "(string \<Rightarrow> string) \<Rightarrow> string \<Rightarrow> string option" where
  "get_file_type_from_ext lw ext0 =
     (let ext = lw ext0 in
      if ext = ''pdf'' then Some ''pdf''
      else if ext \<in> set [''jpg'', ''jpeg'', ''png'', ''gif'', ''webp''] then Some ''image''
      else if ext \<in> set [''mp4'', ''avi'', ''mov'', ''mkv'', ''webm''] then Some ''video''
      else None)"

section \<open>The stored data\<close>

text \<open>
  The two tables (\<open>Category\<close>, \<open>Resource\<close>) are lists of rows in insertion
  order; the column \<open>id\<close> of each is the integer primary key. The column
  \<open>category_id\<close> of a resource holds what \<open>admin\<close> hands over, the text of the
  form field (SQLite stores a text that reads as a number as that number; the row
  here keeps the text). The folder \<open>UPLOAD_FOLDER\<close> is a map from file name to content,
  with the set of the names that the operating system refuses to remove (a missing
  permission, a read-only file system): \<open>os.remove\<close> raises for them. The
  session holds the key \<open>admin\<close> (\<open>None\<close>: the key is absent) and the flashed
  messages, each with its category.
\<close>

record category =
  cat_id :: int
  name :: string

record resource =
  res_id :: int
  title :: string
  description :: "string option"
  filename :: string
  file_type :: string
  category_id :: string

text \<open>
  The messages of the \<open>flash\<close> calls, in the order of the source: "Mot de passe
  incorrect", "Categorie creee avec succes !", "Nom invalide ou deja utilise.",
  "Tous les champs sont obligatoires.", "Fichier invalide ou extension non
  autorisee.", "Type de fichier non supporte.", "Contenu ajoute avec succes !",
  "Contenu supprime definitivement." (accents left out here).
\<close>

datatype message =
    Mot_de_passe_incorrect
  | Categorie_creee
  | Nom_invalide_ou_deja_utilise
  | Tous_les_champs_sont_obligatoires
  | Fichier_invalide_ou_extension_non_autorisee
  | Type_de_fichier_non_supporte
  | Contenu_ajoute
  | Contenu_supprime

record state =
  categories :: "category list"
  resources :: "resource list"
  uploads :: "string \<rightharpoonup> string"
  unremovable :: "string set"
  session_admin :: "bool option"
  flashes :: "(message \<times> string) list"

text \<open>An uploaded file (\<open>FileStorage\<close>): the client's file name and the bytes.\<close>

record file_storage =
  fs_filename :: string
  fs_content :: string

text \<open>
  A request as the handlers read it: \<open>request.method\<close>, \<open>request.form\<close>,
  \<open>request.args\<close> and \<open>request.files\<close>.
\<close>

record request =
  req_method :: string
  form :: "string \<rightharpoonup> string"
  args :: "string \<rightharpoonup> string"
  files :: "string \<rightharpoonup> file_storage"

text \<open>
  What app.py takes from outside itself: the environment (for
  \<open>ADMIN_PASSWORD\<close>), Werkzeug's \<open>secure_filename\<close>, and Python's
  \<open>str.lower\<close> and \<open>str.strip\<close>.
\<close>

record config =
  environ :: "string \<rightharpoonup> string"
  secure_filename :: "string \<Rightarrow> string"
  str_lower :: "string \<Rightarrow> string"
  str_strip :: "string \<Rightarrow> string"

definition ADMIN_PASSWORD :: "config \<Rightarrow> string" where
  "ADMIN_PASSWORD cfg =
     (case environ cfg ''ADMIN_PASSWORD'' of
        None \<Rightarrow> ''@dmin123''
      | Some p \<Rightarrow> p)"

text \<open>A handler answers with a redirect, a rendered template, or an error.\<close>

datatype response =
    Redirect string
  | Render_login
  | Render_admin "resource list" "category list"
  | Abort nat
  | Raised exn

subsection \<open>Queries, commits and the file system\<close>

text \<open>
  A new row gets the next integer key: 1 in an empty table, else one more than
  the largest key there.
\<close>

definition next_id :: "int list \<Rightarrow> int" where
  "next_id ids = (if ids = [] then 1 else Max (set ids) + 1)"

definition query_first :: "'a list \<Rightarrow> 'a option" where
  "query_first rows = (case rows of [] \<Rightarrow> None | r # _ \<Rightarrow> Some r)"

definition add_category :: "string \<Rightarrow> state \<Rightarrow> state" where
  "add_category n s =
     s\<lparr>categories := categories s @
          [\<lparr>cat_id = next_id (map cat_id (categories s)), name = n\<rparr>]\<rparr>"

text \<open>
  The \<open>ForeignKey\<close> declared on \<open>category_id\<close> is not looked at when a row is
  inserted: the database is SQLite, which checks foreign keys only on a connection
  that has switched the check on, and app.py never does.
\<close>

definition add_resource ::
  "string \<Rightarrow> string option \<Rightarrow> string \<Rightarrow> string \<Rightarrow> string \<Rightarrow> state \<Rightarrow> state" where
  "add_resource t d fname ftype cid s =
     s\<lparr>resources := resources s @
          [\<lparr>res_id = next_id (map res_id (resources s)), title = t, description = d,
            filename = fname, file_type = ftype, category_id = cid\<rparr>]\<rparr>"

definition delete_row :: "resource \<Rightarrow> state \<Rightarrow> state" where
  "delete_row r s = s\<lparr>resources := filter (\<lambda>x. res_id x \<noteq> res_id r) (resources s)\<rparr>"

text \<open>\<open>os.path.exists\<close> and \<open>os.remove\<close> on a name of the upload folder.\<close>

definition path_exists :: "string \<Rightarrow> state \<Rightarrow> bool" where
  "path_exists n s = (uploads s n \<noteq> None)"

definition os_remove :: "string \<Rightarrow> state \<Rightarrow> exn + state" where
  "os_remove n s =
     (if uploads s n = None then Inl FileNotFoundError
      else if n \<in> unremovable s then Inl OSError
      else Inr (s\<lparr>uploads := (uploads s)(n := None)\<rparr>))"

definition flash :: "message \<Rightarrow> string \<Rightarrow> state \<Rightarrow> state" where
  "flash m c s = s\<lparr>flashes := flashes s @ [(m, c)]\<rparr>"

text \<open>Truth of \<open>str | None\<close> in a condition: \<open>None\<close> and the empty string are false.\<close>

definition truthy :: "string option \<Rightarrow> bool" where
  "truthy x = (case x of None \<Rightarrow> False | Some v \<Rightarrow> v \<noteq> [])"

text \<open>A \<open>FileStorage\<close> is true when its file name is not empty.\<close>

definition truthy_file :: "file_storage option \<Rightarrow> bool" where
  "truthy_file x = (case x of None \<Rightarrow> False | Some f \<Rightarrow> fs_filename f \<noteq> [])"

section \<open>Startup\<close>

text \<open>The default category is named "General", with acute accents on both e (UTF-8).\<close>

definition default_name :: string where
  "default_name = ''G'' @ [CHR 0xC3, CHR 0xA9] @ ''n'' @ [CHR 0xC3, CHR 0xA9] @ ''ral''"

definition bootstrap :: "state \<Rightarrow> state" where
  "bootstrap s =
     (if query_first (categories s) = None then add_category default_name s else s)"

section \<open>The handlers\<close>

definition is_admin :: "state \<Rightarrow> bool" where
  "is_admin s = (session_admin s = Some True)"

definition admin_login :: "config \<Rightarrow> request \<Rightarrow> state \<Rightarrow> response \<times> state" where
  "admin_login cfg req s =
     (if req_method req = ''POST''
      then (case form req ''password'' of
              None \<Rightarrow> (Abort 400, s)
            | Some p \<Rightarrow>
                if p = ADMIN_PASSWORD cfg
                then (Redirect ''/admin'', s\<lparr>session_admin := Some True\<rparr>)
                else (Render_login, flash Mot_de_passe_incorrect ''error'' s))
      else (Render_login, s))"

definition admin_logout :: "state \<Rightarrow> response \<times> state" where
  "admin_logout s = (Redirect ''/'', s\<lparr>session_admin := None\<rparr>)"

text \<open>The branch \<open>create_category\<close> of \<open>admin\<close>.\<close>

definition admin_create_category :: "config \<Rightarrow> request \<Rightarrow> state \<Rightarrow> response + state" where
  "admin_create_category cfg req s =
     (case form req ''new_category'' of
        None \<Rightarrow> Inl (Abort 400)
      | Some raw \<Rightarrow>
          let n = str_strip cfg raw in
          if n \<noteq> [] \<and> query_first (filter (\<lambda>c. name c = n) (categories s)) = None
          then Inr (flash Categorie_creee ''success'' (add_category n s))
          else Inr (flash Nom_invalide_ou_deja_utilise ''error'' s))"

text \<open>
  The branch \<open>upload_resource\<close> of \<open>admin\<close>. Past the first test the three
  values are present, so the last case of the pattern match (the operand
  \<open>not file\<close> of the second test) is never taken. \<open>file.save\<close> writes the
  bytes under the sanitised name in the upload folder; with an empty name the path
  is the folder itself and opening it raises.
\<close>

definition admin_upload_resource :: "config \<Rightarrow> request \<Rightarrow> state \<Rightarrow> response + state" where
  "admin_upload_resource cfg req s =
     (let title_f = form req ''title'';
          description_f = form req ''description'';
          category_f = form req ''category'';
          file_f = files req ''file''
      in
      if \<not> (truthy title_f \<and> truthy category_f \<and> truthy_file file_f)
      then Inr (flash Tous_les_champs_sont_obligatoires ''error'' s)
      else
        (case (title_f, category_f, file_f) of
           (Some t, Some cid, Some f) \<Rightarrow>
             (case allowed_file (str_lower cfg) (fs_filename f) of
                Inl e \<Rightarrow> Inl (Raised e)
              | Inr False \<Rightarrow>
                  Inr (flash Fichier_invalide_ou_extension_non_autorisee ''error'' s)
              | Inr True \<Rightarrow>
                  (case getitem (rsplit (fs_filename f) (CHR ''.'')) 1 of
                     Inl e \<Rightarrow> Inl (Raised e)
                   | Inr suffix \<Rightarrow>
                       let ext = str_lower cfg suffix in
                       (case get_file_type_from_ext (str_lower cfg) ext of
                          None \<Rightarrow> Inr (flash Type_de_fichier_non_supporte ''error'' s)
                        | Some ftype \<Rightarrow>
                            if ftype = []
                            then Inr (flash Type_de_fichier_non_supporte ''error'' s)
                            else
                              let fname = secure_filename cfg (fs_filename f) in
                              if fname = [] then Inl (Raised IsADirectoryError)
                              else
                                Inr (flash Contenu_ajoute ''success''
                                      (add_resource t description_f fname ftype cid
                                         (s\<lparr>uploads :=
                                              (uploads s)(fname \<mapsto> fs_content f)\<rparr>))))))
         | _ \<Rightarrow> Inr (flash Fichier_invalide_ou_extension_non_autorisee ''error'' s)))"

text \<open>The listing at the end of \<open>admin\<close>, filtered by the query parameter \<open>type\<close>.\<close>

definition admin_listing :: "string option \<Rightarrow> resource list \<Rightarrow> resource list" where
  "admin_listing type_filter rows =
     (case type_filter of
        None \<Rightarrow> rows
      | Some t \<Rightarrow>
          if t \<in> set [''pdf'', ''image'', ''video'']
          then filter (\<lambda>r. file_type r = t) rows
          else rows)"

definition admin_post :: "config \<Rightarrow> request \<Rightarrow> state \<Rightarrow> response + state" where
  "admin_post cfg req s =
     (if req_method req = ''POST''
      then
        (let action = form req ''action'' in
         if action = Some ''create_category'' then admin_create_category cfg req s
         else if action = Some ''upload_resource'' then admin_upload_resource cfg req s
         else Inr s)
      else Inr s)"

text \<open>
  \<open>admin\<close>: the categories handed to the template are read before the POST is
  handled, the resources after it.
\<close>

definition admin :: "config \<Rightarrow> request \<Rightarrow> state \<Rightarrow> response \<times> state" where
  "admin cfg req s =
     (if \<not> is_admin s then (Redirect ''/admin/login'', s)
      else
        let cats = categories s in
        (case admin_post cfg req s of
           Inl r \<Rightarrow> (r, s)
         | Inr s' \<Rightarrow>
             (Render_admin (admin_listing (args req ''type'') (resources s')) cats, s')))"

definition get_resource :: "int \<Rightarrow> resource list \<Rightarrow> resource option" where
  "get_resource rid rows = query_first (filter (\<lambda>r. res_id r = rid) rows)"

text \<open>
  \<open>delete_resource\<close>: the file is removed first, when it exists; an exception of
  \<open>os.remove\<close> ends the request there, before the row is touched.
\<close>

definition delete_resource :: "int \<Rightarrow> state \<Rightarrow> response \<times> state" where
  "delete_resource resource_id s =
     (if \<not> is_admin s then (Redirect ''/admin/login'', s)
      else
        (case get_resource resource_id (resources s) of
           None \<Rightarrow> (Abort 404, s)
         | Some r \<Rightarrow>
             (case (if path_exists (filename r) s then os_remove (filename r) s else Inr s) of
                Inl e \<Rightarrow> (Raised e, s)
              | Inr s1 \<Rightarrow>
                  let s2 = delete_row r s1
                  in (Redirect ''/admin'', flash Contenu_supprime ''success'' s2))))"

section \<open>Runs of the application\<close>

text \<open>
  One event is a start of the process or one request handled to its end; a run
  is a sequence of events applied to the stored state.
\<close>

datatype event =
    Startup
  | Login request
  | Logout
  | Admin request
  | Delete int

fun step :: "config \<Rightarrow> event \<Rightarrow> state \<Rightarrow> state" where
  "step cfg Startup s = bootstrap s"
| "step cfg (Login req) s = snd (admin_login cfg req s)"
| "step cfg Logout s = snd (admin_logout s)"
| "step cfg (Admin req) s = snd (admin cfg req s)"
| "step cfg (Delete rid) s = snd (delete_resource rid s)"

definition run :: "config \<Rightarrow> event list \<Rightarrow> state \<Rightarrow> state" where
  "run cfg evs s = fold (step cfg) evs s"

definition count_default :: "state \<Rightarrow> nat" where
  "count_default s = length (filter (\<lambda>c. name c = default_name) (categories s))"

section \<open>Example inputs\<close>

text \<open>
  The examples run with \<open>lower\<close> and \<open>strip\<close> as Python has them on ASCII
  text: the letters A to Z are lowered and the ASCII white space is stripped. On
  the strings of the examples they give what Python gives.
\<close>

definition ascii_uppercase :: string where
  "ascii_uppercase = ''ABCDEFGHIJKLMNOPQRSTUVWXYZ''"

definition ascii_lowercase :: string where
  "ascii_lowercase = ''abcdefghijklmnopqrstuvwxyz''"

definition lower_char :: "char \<Rightarrow> char" where
  "lower_char c =
     (case map_of (zip ascii_uppercase ascii_lowercase) c of
        None \<Rightarrow> c
      | Some d \<Rightarrow> d)"

definition ascii_lower :: "string \<Rightarrow> string" where
  "ascii_lower s = map lower_char s"

definition whitespace :: "char list" where
  "whitespace =
     [CHR '' '', CHR 0x09, CHR 0x0A, CHR 0x0B, CHR 0x0C, CHR 0x0D,
      CHR 0x1C, CHR 0x1D, CHR 0x1E, CHR 0x1F]"

definition isspace :: "char \<Rightarrow> bool" where
  "isspace c = (c \<in> set whitespace)"

definition ascii_strip :: "string \<Rightarrow> string" where
  "ascii_strip s = rev (dropWhile isspace (rev (dropWhile isspace s)))"

definition example_config :: config where
  "example_config =
     \<lparr>environ = Map.empty, secure_filename = (\<lambda>n. n),
      str_lower = ascii_lower, str_strip = ascii_strip\<rparr>"

definition empty_store :: state where
  "empty_store =
     \<lparr>categories = [], resources = [], uploads = Map.empty, unremovable = {},
      session_admin = None, flashes = []\<rparr>"

definition example_resource :: resource where
  "example_resource =
     \<lparr>res_id = 1, title = ''Notes'', description = None, filename = ''notes.pdf'',
      file_type = ''pdf'', category_id = ''1''\<rparr>"

definition example_state :: state where
  "example_state =
     \<lparr>categories = [\<lparr>cat_id = 1, name = default_name\<rparr>],
      resources = [example_resource],
      uploads = [''notes.pdf'' \<mapsto> ''%PDF-1.4''],
      unremovable = {},
      session_admin = Some True,
      flashes = []\<rparr>"

definition anonymous_state :: state where
  "anonymous_state = example_state\<lparr>session_admin := None\<rparr>"


definition post :: "(string \<times> string) list \<Rightarrow> (string \<times> file_storage) list \<Rightarrow> request" where
  "post kvs fs =
     \<lparr>req_method = ''POST'', form = map_of kvs, args = Map.empty, files = map_of fs\<rparr>"

definition get_request :: "(string \<times> string) list \<Rightarrow> request" where
  "get_request params =
     \<lparr>req_method = ''GET'', form = Map.empty, args = map_of params, files = Map.empty\<rparr>"

definition example_file :: file_storage where
  "example_file = \<lparr>fs_filename = ''doc.pdf'', fs_content = ''%PDF''\<rparr>"

text \<open>An upload with every field, for a category id that no category has.\<close>

definition dangling_upload :: request where
  "dangling_upload =
     post [(''action'', ''upload_resource''), (''title'', ''Report''), (''category'', ''999'')]
          [(''file'', example_file)]"

text \<open>An upload without a title, and one whose title is empty.\<close>

definition untitled_upload :: request where
  "untitled_upload =
     post [(''action'', ''upload_resource''), (''category'', ''1'')]
          [(''file'', example_file)]"

definition empty_title_upload :: request where
  "empty_title_upload =
     post [(''action'', ''upload_resource''), (''title'', ''''), (''category'', ''1'')]
          [(''file'', example_file)]"

section \<open>Facts about the string operations\<close>

lemma rsplit_last:
  assumes "sep \<notin> set suffix"
  shows "rsplit (base @ sep # suffix) sep = [base, suffix]"
proof -
  have t: "takeWhile (\<lambda>c. c \<noteq> sep) (rev suffix @ sep # rev base) = rev suffix"
    using assms by (subst takeWhile_append2) auto
  have d: "dropWhile (\<lambda>c. c \<noteq> sep) (rev suffix @ sep # rev base) = sep # rev base"
    using assms by (subst dropWhile_append2) auto
  show ?thesis by (simp add: rsplit_def t d)
qed

lemma split_at_last:
  assumes "sep \<in> set s"
  shows "\<exists>base suffix. s = base @ sep # suffix \<and> sep \<notin> set suffix"
  using assms by (rule split_list_last)

lemma getitem_rsplit:
  assumes "sep \<notin> set suffix"
  shows "getitem (rsplit (base @ sep # suffix) sep) 1 = Inr suffix"
  using assms by (simp add: rsplit_last getitem_def)

text \<open>The example \<open>lower\<close>: lowering twice is lowering once.\<close>

lemma upper_lower_disjoint: "list_all (\<lambda>c. c \<notin> set ascii_uppercase) ascii_lowercase"
  by code_simp

lemma lower_char_not_upper:
  assumes "c \<notin> set ascii_uppercase"
  shows "lower_char c = c"
proof -
  from assms have "c \<notin> fst ` set (zip ascii_uppercase ascii_lowercase)"
    by (auto dest: set_zip_leftD)
  then have "map_of (zip ascii_uppercase ascii_lowercase) c = None"
    by (simp add: map_of_eq_None_iff)
  then show ?thesis by (simp add: lower_char_def)
qed

lemma lower_char_cases:
  "lower_char c = c \<or> lower_char c \<in> set ascii_lowercase"
proof (cases "map_of (zip ascii_uppercase ascii_lowercase) c")
  case None
  then show ?thesis by (simp add: lower_char_def)
next
  case (Some d)
  then have "(c, d) \<in> set (zip ascii_uppercase ascii_lowercase)"
    by (rule map_of_SomeD)
  then have "d \<in> set ascii_lowercase" by (rule set_zip_rightD)
  with Some show ?thesis by (simp add: lower_char_def)
qed

lemma lower_char_idem: "lower_char (lower_char c) = lower_char c"
proof -
  from lower_char_cases [of c] show ?thesis
  proof
    assume "lower_char c = c"
    then show ?thesis by simp
  next
    assume "lower_char c \<in> set ascii_lowercase"
    with upper_lower_disjoint have "lower_char c \<notin> set ascii_uppercase"
      by (simp add: list_all_iff)
    then show ?thesis by (rule lower_char_not_upper)
  qed
qed

lemma ascii_lower_idem: "ascii_lower (ascii_lower s) = ascii_lower s"
  by (simp add: ascii_lower_def lower_char_idem)

lemma ascii_lower_extensions:
  "list_all (\<lambda>x. ascii_lower x = x)
     [''pdf'', ''jpg'', ''jpeg'', ''png'', ''gif'', ''webp'',
      ''mp4'', ''avi'', ''mov'', ''mkv'', ''webm'']"
  by code_simp

lemma ascii_lower_fixed:
  assumes "x \<in> set [''pdf'', ''jpg'', ''jpeg'', ''png'', ''gif'', ''webp'',
                      ''mp4'', ''avi'', ''mov'', ''mkv'', ''webm'']"
  shows "ascii_lower x = x"
  using ascii_lower_extensions assms unfolding list_all_iff by blast

lemma example_config_fields:
  "environ example_config = Map.empty"
  "secure_filename example_config = (\<lambda>n. n)"
  "str_lower example_config = ascii_lower"
  "str_strip example_config = ascii_strip"
  by (simp_all add: example_config_def)

section \<open>Facts about the classifier\<close>

lemma ALLOWED_EXTENSIONS_keys:
  "contains_key ALLOWED_EXTENSIONS e \<longleftrightarrow>
     e \<in> set [''pdf'', ''jpg'', ''jpeg'', ''png'', ''gif'', ''webp'',
              ''mp4'', ''avi'', ''mov'', ''mkv'', ''webm'']"
  unfolding contains_key_def ALLOWED_EXTENSIONS_def map_of_eq_None_iff
  by simp

lemma allowed_file_no_dot:
  "CHR ''.'' \<notin> set fname \<Longrightarrow> allowed_file lw fname = Inr False"
  by (simp add: allowed_file_def)

lemma allowed_file_split:
  assumes "CHR ''.'' \<notin> set suffix"
  shows "allowed_file lw (base @ CHR ''.'' # suffix) =
           Inr (contains_key ALLOWED_EXTENSIONS (lw suffix))"
  using assms by (simp add: allowed_file_def getitem_rsplit del: One_nat_def)

lemma classify_table:
  "get_file_type_from_ext lw e =
     (if lw e = ''pdf'' then Some ''pdf''
      else if lw e \<in> set [''jpg'', ''jpeg'', ''png'', ''gif'', ''webp''] then Some ''image''
      else if lw e \<in> set [''mp4'', ''avi'', ''mov'', ''mkv'', ''webm''] then Some ''video''
      else None)"
  by (simp only: get_file_type_from_ext_def Let_def)

lemma table_cases:
  fixes x :: string
  assumes "r = (if x = ''pdf'' then Some ''pdf''
      else if x \<in> set [''jpg'', ''jpeg'', ''png'', ''gif'', ''webp''] then Some ''image''
      else if x \<in> set [''mp4'', ''avi'', ''mov'', ''mkv'', ''webm''] then Some ''video''
      else None)"
  shows "x = ''pdf'' \<longrightarrow> r = Some ''pdf''"
    and "x \<in> {''jpg'', ''jpeg'', ''png'', ''gif'', ''webp''} \<longrightarrow> r = Some ''image''"
    and "x \<in> {''mp4'', ''avi'', ''mov'', ''mkv'', ''webm''} \<longrightarrow> r = Some ''video''"
    and "x \<notin> {''pdf'', ''jpg'', ''jpeg'', ''png'', ''gif'', ''webp'',
                ''mp4'', ''avi'', ''mov'', ''mkv'', ''webm''} \<longrightarrow> r = None"
  using assms by auto

lemma classify_defined:
  "get_file_type_from_ext lw e \<noteq> None \<longleftrightarrow> contains_key ALLOWED_EXTENSIONS (lw e)"
  unfolding ALLOWED_EXTENSIONS_keys classify_table by auto

lemma classify_values:
  "get_file_type_from_ext lw e = Some t \<Longrightarrow> t \<in> set [''pdf'', ''image'', ''video'']"
  unfolding classify_table by (auto split: if_splits)

text \<open>When lowering twice is lowering once, the classifier sees the same on both.\<close>

lemma classify_lower:
  assumes "\<And>s. lw (lw s) = lw s"
  shows "get_file_type_from_ext lw (lw e) = get_file_type_from_ext lw e"
  by (simp only: classify_table assms)

text \<open>When the eleven extensions are already lowered, each of them is classified.\<close>

lemma classify_extension:
  assumes "\<And>x. x \<in> set [''pdf'', ''jpg'', ''jpeg'', ''png'', ''gif'', ''webp'',
                            ''mp4'', ''avi'', ''mov'', ''mkv'', ''webm''] \<Longrightarrow> lw x = x"
    and "contains_key ALLOWED_EXTENSIONS e"
  shows "get_file_type_from_ext lw e \<noteq> None"
proof -
  from assms(2) have "e \<in> set [''pdf'', ''jpg'', ''jpeg'', ''png'', ''gif'', ''webp'',
                            ''mp4'', ''avi'', ''mov'', ''mkv'', ''webm'']"
    by (simp only: ALLOWED_EXTENSIONS_keys)
  then have "lw e = e" by (rule assms(1))
  with assms(2) show ?thesis by (simp only: classify_defined)
qed

lemma allowed_file_total: "\<exists>b. allowed_file lw fname = Inr b"
proof (cases "CHR ''.'' \<in> set fname")
  case True
  from split_at_last [OF True] obtain base suffix
    where f: "fname = base @ CHR ''.'' # suffix" and n: "CHR ''.'' \<notin> set suffix"
    by blast
  have "allowed_file lw (base @ CHR ''.'' # suffix) =
          Inr (contains_key ALLOWED_EXTENSIONS (lw suffix))"
    using n by (rule allowed_file_split)
  then show ?thesis unfolding f by (rule exI)
next
  case False
  then have "allowed_file lw fname = Inr False" by (rule allowed_file_no_dot)
  then show ?thesis by (rule exI)
qed

lemma allowed_file_True:
  assumes "allowed_file lw fname = Inr True"
  shows "\<exists>base suffix. fname = base @ CHR ''.'' # suffix \<and> CHR ''.'' \<notin> set suffix
           \<and> contains_key ALLOWED_EXTENSIONS (lw suffix)"
proof -
  have "CHR ''.'' \<in> set fname"
    using assms allowed_file_no_dot [of fname lw] by auto
  from split_at_last [OF this] obtain base suffix
    where f: "fname = base @ CHR ''.'' # suffix" and n: "CHR ''.'' \<notin> set suffix"
    by blast
  have "allowed_file lw fname = Inr (contains_key ALLOWED_EXTENSIONS (lw suffix))"
    unfolding f using n by (rule allowed_file_split)
  with assms have "contains_key ALLOWED_EXTENSIONS (lw suffix)" by simp
  with f n show ?thesis by blast
qed

text \<open>
  C1. \<open>lw\<close> is Python's \<open>lower\<close>; two facts about it are used: lowering twice
  is lowering once, and the eleven extensions are already lowered. A file name
  whose suffix after the last dot, lowered, is one of the eleven extensions is
  allowed, and the classifier gives that suffix (lowered or not) its media type:
  pdf for pdf; image for jpg, jpeg, png, gif, webp; video for mp4, avi, mov, mkv,
  webm. Every other file name (no dot, or another suffix) is not allowed, and the
  classifier gives its suffix \<open>None\<close>. Neither function raises, and the verdict
  on a file name depends on its suffix only through the lowered suffix: names
  whose suffixes differ only in case are treated alike (a suffix that Python
  lowers to mkv, written with the Kelvin sign for one, is allowed and is a video).
\<close>

theorem allowed_file_and_classifier_agree:
  assumes "\<And>s. lw (lw s) = lw s"
    and "\<And>x. x \<in> set [''pdf'', ''jpg'', ''jpeg'', ''png'', ''gif'', ''webp'',
                         ''mp4'', ''avi'', ''mov'', ''mkv'', ''webm''] \<Longrightarrow> lw x = x"
  shows
  "(CHR ''.'' \<notin> set fname \<longrightarrow> allowed_file lw fname = Inr False)
   \<and> (CHR ''.'' \<notin> set suffix \<longrightarrow>
        allowed_file lw (base @ ''.'' @ suffix) =
          Inr (lw suffix \<in> {''pdf'', ''jpg'', ''jpeg'', ''png'', ''gif'', ''webp'',
                              ''mp4'', ''avi'', ''mov'', ''mkv'', ''webm''}))
   \<and> get_file_type_from_ext lw suffix = get_file_type_from_ext lw (lw suffix)
   \<and> (lw suffix = ''pdf'' \<longrightarrow> get_file_type_from_ext lw (lw suffix) = Some ''pdf'')
   \<and> (lw suffix \<in> {''jpg'', ''jpeg'', ''png'', ''gif'', ''webp''} \<longrightarrow>
        get_file_type_from_ext lw (lw suffix) = Some ''image'')
   \<and> (lw suffix \<in> {''mp4'', ''avi'', ''mov'', ''mkv'', ''webm''} \<longrightarrow>
        get_file_type_from_ext lw (lw suffix) = Some ''video'')
   \<and> (lw suffix \<notin> {''pdf'', ''jpg'', ''jpeg'', ''png'', ''gif'', ''webp'',
                      ''mp4'', ''avi'', ''mov'', ''mkv'', ''webm''} \<longrightarrow>
        get_file_type_from_ext lw (lw suffix) = None)
   \<and> (CHR ''.'' \<notin> set suffix \<and> CHR ''.'' \<notin> set suffix' \<and> lw suffix = lw suffix' \<longrightarrow>
        allowed_file lw (base @ ''.'' @ suffix) = allowed_file lw (base' @ ''.'' @ suffix'))"
proof -
  have a: "CHR ''.'' \<notin> set fname \<longrightarrow> allowed_file lw fname = Inr False"
    by (simp add: allowed_file_no_dot)
  have b: "CHR ''.'' \<notin> set suffix \<longrightarrow>
        allowed_file lw (base @ ''.'' @ suffix) =
          Inr (lw suffix \<in> {''pdf'', ''jpg'', ''jpeg'', ''png'', ''gif'', ''webp'',
                              ''mp4'', ''avi'', ''mov'', ''mkv'', ''webm''})"
    by (simp add: allowed_file_split ALLOWED_EXTENSIONS_keys)
  have l: "get_file_type_from_ext lw (lw suffix) = get_file_type_from_ext lw suffix"
    using assms(1) by (rule classify_lower)
  have c: "get_file_type_from_ext lw suffix = get_file_type_from_ext lw (lw suffix)"
    by (simp only: l)
  note t = table_cases [OF classify_table [of lw suffix]]
  have d: "lw suffix = ''pdf'' \<longrightarrow> get_file_type_from_ext lw (lw suffix) = Some ''pdf''"
    unfolding l by (rule t(1))
  have e: "lw suffix \<in> {''jpg'', ''jpeg'', ''png'', ''gif'', ''webp''} \<longrightarrow>
        get_file_type_from_ext lw (lw suffix) = Some ''image''"
    unfolding l by (rule t(2))
  have f: "lw suffix \<in> {''mp4'', ''avi'', ''mov'', ''mkv'', ''webm''} \<longrightarrow>
        get_file_type_from_ext lw (lw suffix) = Some ''video''"
    unfolding l by (rule t(3))
  have g: "lw suffix \<notin> {''pdf'', ''jpg'', ''jpeg'', ''png'', ''gif'', ''webp'',
                      ''mp4'', ''avi'', ''mov'', ''mkv'', ''webm''} \<longrightarrow>
        get_file_type_from_ext lw (lw suffix) = None"
    unfolding l by (rule t(4))
  have h: "CHR ''.'' \<notin> set suffix \<and> CHR ''.'' \<notin> set suffix' \<and> lw suffix = lw suffix' \<longrightarrow>
        allowed_file lw (base @ ''.'' @ suffix) = allowed_file lw (base' @ ''.'' @ suffix')"
    by (simp add: allowed_file_split)
  show ?thesis
    by (intro conjI) (rule a, rule b, rule c, rule d, rule e, rule f, rule g, rule h)
qed

theorem allowed_file_and_classifier_agree_witness:
  "(\<forall>s. ascii_lower (ascii_lower s) = ascii_lower s)
   \<and> list_all (\<lambda>x. ascii_lower x = x)
        [''pdf'', ''jpg'', ''jpeg'', ''png'', ''gif'', ''webp'',
         ''mp4'', ''avi'', ''mov'', ''mkv'', ''webm'']
   \<and> CHR ''.'' \<notin> set ''README''
   \<and> allowed_file ascii_lower ''README'' = Inr False
   \<and> CHR ''.'' \<notin> set ''JpEg''
   \<and> allowed_file ascii_lower ''archive.tar.JpEg'' = Inr True
   \<and> ascii_lower ''JpEg'' \<in> {''jpg'', ''jpeg'', ''png'', ''gif'', ''webp''}
   \<and> get_file_type_from_ext ascii_lower (ascii_lower ''JpEg'') = Some ''image''
   \<and> get_file_type_from_ext ascii_lower ''JpEg'' = Some ''image''
   \<and> CHR ''.'' \<notin> set ''exe''
   \<and> ascii_lower ''exe'' \<notin> {''pdf'', ''jpg'', ''jpeg'', ''png'', ''gif'', ''webp'',
                                ''mp4'', ''avi'', ''mov'', ''mkv'', ''webm''}
   \<and> allowed_file ascii_lower ''malware.exe'' = Inr False
   \<and> get_file_type_from_ext ascii_lower (ascii_lower ''exe'') = None"
proof -
  have l: "ascii_lower ''JpEg'' = ''jpeg''" by code_simp
  have m: "ascii_lower ''exe'' = ''exe''" by code_simp
  note t = allowed_file_and_classifier_agree
             [of ascii_lower, OF ascii_lower_idem ascii_lower_fixed]
  show ?thesis
    using t [of "''README''" "''JpEg''" "''archive.tar''" "''JpEg''" "''archive.tar''"]
          t [of "''README''" "''exe''" "''malware''" "''exe''" "''malware''"]
    by (simp add: l m ascii_lower_idem ascii_lower_fixed list_all_iff)
qed

section \<open>Facts about the handlers\<close>

lemma admin_anonymous:
  "\<not> is_admin s \<Longrightarrow> admin cfg req s = (Redirect ''/admin/login'', s)"
  by (simp add: admin_def)

lemma delete_anonymous:
  "\<not> is_admin s \<Longrightarrow> delete_resource rid s = (Redirect ''/admin/login'', s)"
  by (simp add: delete_resource_def)

lemma admin_reaches_listing:
  assumes "is_admin s" and "admin_post cfg req s = Inr s'"
  shows "admin cfg req s =
           (Render_admin (admin_listing (args req ''type'') (resources s')) (categories s), s')"
  using assms by (simp add: admin_def)

lemma admin_post_other_method:
  "req_method req \<noteq> ''POST'' \<Longrightarrow> admin_post cfg req s = Inr s"
  by (simp add: admin_post_def)

lemma admin_post_upload:
  assumes "req_method req = ''POST''" and "form req ''action'' = Some ''upload_resource''"
  shows "admin_post cfg req s = admin_upload_resource cfg req s"
  using assms by (simp add: admin_post_def)

lemma admin_post_create:
  assumes "req_method req = ''POST''" and "form req ''action'' = Some ''create_category''"
  shows "admin_post cfg req s = admin_create_category cfg req s"
  using assms by (simp add: admin_post_def)

lemma admin_listing_unfiltered:
  assumes "tf \<notin> {Some ''pdf'', Some ''image'', Some ''video''}"
  shows "admin_listing tf rows = rows"
proof (cases tf)
  case None
  then show ?thesis by (simp add: admin_listing_def)
next
  case (Some t)
  with assms have "t \<notin> set [''pdf'', ''image'', ''video'']" by simp
  with Some show ?thesis by (simp only: admin_listing_def option.case if_False)
qed

lemma upload_missing:
  assumes "\<not> (truthy (form req ''title'') \<and> truthy (form req ''category'')
               \<and> truthy_file (files req ''file''))"
  shows "admin_upload_resource cfg req s =
           Inr (flash Tous_les_champs_sont_obligatoires ''error'' s)"
  using assms unfolding admin_upload_resource_def Let_def by simp

lemma flash_fields:
  "categories (flash m c s) = categories s"
  "resources (flash m c s) = resources s"
  "uploads (flash m c s) = uploads s"
  "unremovable (flash m c s) = unremovable s"
  "session_admin (flash m c s) = session_admin s"
  "flashes (flash m c s) = flashes s @ [(m, c)]"
  by (simp_all add: flash_def)

lemma example_state_fields:
  "categories example_state = [\<lparr>cat_id = 1, name = default_name\<rparr>]"
  "resources example_state = [example_resource]"
  "uploads example_state = [''notes.pdf'' \<mapsto> ''%PDF-1.4'']"
  "unremovable example_state = {}"
  "session_admin example_state = Some True"
  "flashes example_state = []"
  by (simp_all add: example_state_def)

text \<open>
  C2. In an admin session, a POST of the action \<open>upload_resource\<close> in which the
  title, the category or the file is missing (the field is absent or empty; no
  file part, or a file part whose file name is empty) ends with the message "Tous
  les champs sont obligatoires." (category error): the page is rendered, and
  nothing but that message is added to the state; the rows of both tables and the
  files of the upload folder are those of before.
\<close>

theorem upload_missing_field_rejected:
  assumes "is_admin s"
    and "req_method req = ''POST''"
    and "form req ''action'' = Some ''upload_resource''"
    and "form req ''title'' = None \<or> form req ''title'' = Some []
         \<or> form req ''category'' = None \<or> form req ''category'' = Some []
         \<or> files req ''file'' = None
         \<or> (\<exists>f. files req ''file'' = Some f \<and> fs_filename f = [])"
  shows "admin cfg req s =
           (Render_admin (admin_listing (args req ''type'') (resources s)) (categories s),
            flash Tous_les_champs_sont_obligatoires ''error'' s)
         \<and> resources (snd (admin cfg req s)) = resources s
         \<and> categories (snd (admin cfg req s)) = categories s
         \<and> uploads (snd (admin cfg req s)) = uploads s"
proof -
  from assms(4)
  have "\<not> (truthy (form req ''title'') \<and> truthy (form req ''category'')
            \<and> truthy_file (files req ''file''))"
    by (auto simp: truthy_def truthy_file_def)
  then have "admin_upload_resource cfg req s =
               Inr (flash Tous_les_champs_sont_obligatoires ''error'' s)"
    by (rule upload_missing)
  with assms(2,3)
  have "admin_post cfg req s = Inr (flash Tous_les_champs_sont_obligatoires ''error'' s)"
    by (simp add: admin_post_upload)
  with assms(1) show ?thesis
    by (simp add: admin_reaches_listing flash_fields)
qed

theorem upload_missing_field_rejected_witness:
  "is_admin example_state
   \<and> req_method untitled_upload = ''POST''
   \<and> form untitled_upload ''action'' = Some ''upload_resource''
   \<and> form untitled_upload ''title'' = None
   \<and> admin example_config untitled_upload example_state =
       (Render_admin [example_resource] [\<lparr>cat_id = 1, name = default_name\<rparr>],
        flash Tous_les_champs_sont_obligatoires ''error'' example_state)
   \<and> resources (snd (admin example_config untitled_upload example_state)) = [example_resource]
   \<and> uploads (snd (admin example_config untitled_upload example_state))
       = [''notes.pdf'' \<mapsto> ''%PDF-1.4'']
   \<and> req_method empty_title_upload = ''POST''
   \<and> form empty_title_upload ''action'' = Some ''upload_resource''
   \<and> form empty_title_upload ''title'' = Some []
   \<and> admin example_config empty_title_upload example_state =
       (Render_admin [example_resource] [\<lparr>cat_id = 1, name = default_name\<rparr>],
        flash Tous_les_champs_sont_obligatoires ''error'' example_state)
   \<and> resources (snd (admin example_config empty_title_upload example_state))
       = [example_resource]
   \<and> uploads (snd (admin example_config empty_title_upload example_state))
       = [''notes.pdf'' \<mapsto> ''%PDF-1.4'']"
proof -
  have a: "is_admin example_state" by (simp add: is_admin_def example_state_def)
  have b: "req_method untitled_upload = ''POST''" by (simp add: untitled_upload_def post_def)
  have c: "form untitled_upload ''action'' = Some ''upload_resource''"
    by (simp add: untitled_upload_def post_def)
  have d: "form untitled_upload ''title'' = None" by (simp add: untitled_upload_def post_def)
  have e: "args untitled_upload ''type'' = None" by (simp add: untitled_upload_def post_def)
  have b': "req_method empty_title_upload = ''POST''"
    by (simp add: empty_title_upload_def post_def)
  have c': "form empty_title_upload ''action'' = Some ''upload_resource''"
    by (simp add: empty_title_upload_def post_def)
  have d': "form empty_title_upload ''title'' = Some []"
    by (simp add: empty_title_upload_def post_def)
  have e': "args empty_title_upload ''type'' = None"
    by (simp add: empty_title_upload_def post_def)
  from d have h: "form untitled_upload ''title'' = None
      \<or> form untitled_upload ''title'' = Some []
      \<or> form untitled_upload ''category'' = None
      \<or> form untitled_upload ''category'' = Some []
      \<or> files untitled_upload ''file'' = None
      \<or> (\<exists>f. files untitled_upload ''file'' = Some f \<and> fs_filename f = [])"
    by simp
  from d' have h': "form empty_title_upload ''title'' = None
      \<or> form empty_title_upload ''title'' = Some []
      \<or> form empty_title_upload ''category'' = None
      \<or> form empty_title_upload ''category'' = Some []
      \<or> files empty_title_upload ''file'' = None
      \<or> (\<exists>f. files empty_title_upload ''file'' = Some f \<and> fs_filename f = [])"
    by simp
  show ?thesis
    using upload_missing_field_rejected [OF a b c h, of example_config]
          upload_missing_field_rejected [OF a b' c' h', of example_config] a b c d b' c' d'
    by (simp add: e e' example_state_fields admin_listing_def flash_fields)
qed

text \<open>
  C6. A POST to the login page whose password equals the configured admin
  password (the environment variable \<open>ADMIN_PASSWORD\<close>, else "@dmin123") sets
  the key \<open>admin\<close> of the session and redirects to the admin page, so that the
  session passes the test of the admin handlers. With any other password the login
  page is rendered again with the message "Mot de passe incorrect", and the key
  \<open>admin\<close> is as it was: a session without it stays without it.
\<close>

theorem admin_login_sets_flag:
  assumes "req_method req = ''POST''" and "form req ''password'' = Some p"
  shows "(p = ADMIN_PASSWORD cfg \<longrightarrow>
            admin_login cfg req s = (Redirect ''/admin'', s\<lparr>session_admin := Some True\<rparr>)
            \<and> is_admin (snd (admin_login cfg req s)))
         \<and> (p \<noteq> ADMIN_PASSWORD cfg \<longrightarrow>
            admin_login cfg req s = (Render_login, flash Mot_de_passe_incorrect ''error'' s)
            \<and> session_admin (snd (admin_login cfg req s)) = session_admin s
            \<and> (\<not> is_admin s \<longrightarrow> \<not> is_admin (snd (admin_login cfg req s))))"
  using assms by (simp add: admin_login_def is_admin_def flash_fields)

theorem admin_login_sets_flag_witness:
  "req_method (post [(''password'', ''@dmin123'')] []) = ''POST''
   \<and> form (post [(''password'', ''@dmin123'')] []) ''password'' = Some ''@dmin123''
   \<and> ''@dmin123'' = ADMIN_PASSWORD example_config
   \<and> is_admin (snd (admin_login example_config (post [(''password'', ''@dmin123'')] [])
                      anonymous_state))
   \<and> req_method (post [(''password'', ''admin'')] []) = ''POST''
   \<and> form (post [(''password'', ''admin'')] []) ''password'' = Some ''admin''
   \<and> ''admin'' \<noteq> ADMIN_PASSWORD example_config
   \<and> \<not> is_admin anonymous_state
   \<and> \<not> is_admin (snd (admin_login example_config (post [(''password'', ''admin'')] [])
                        anonymous_state))"
proof -
  have a: "req_method (post [(''password'', ''@dmin123'')] []) = ''POST''"
    "req_method (post [(''password'', ''admin'')] []) = ''POST''"
    by (simp_all add: post_def)
  have b: "form (post [(''password'', ''@dmin123'')] []) ''password'' = Some ''@dmin123''"
    "form (post [(''password'', ''admin'')] []) ''password'' = Some ''admin''"
    by (simp_all add: post_def)
  have c: "ADMIN_PASSWORD example_config = ''@dmin123''"
    by (simp add: ADMIN_PASSWORD_def example_config_def)
  have d: "\<not> is_admin anonymous_state"
    by (simp add: is_admin_def anonymous_state_def)
  show ?thesis
    using admin_login_sets_flag [OF a(1) b(1), of example_config anonymous_state]
          admin_login_sets_flag [OF a(2) b(2), of example_config anonymous_state] d
    by (simp add: a b c is_admin_def flash_fields)
qed

text \<open>
  C7. In a session whose key \<open>admin\<close> is not set, the admin page and the delete
  endpoint answer with a redirect to the login page, whatever the request, and the
  state after is the state before: no category, resource, file, session key or
  message is added or removed.
\<close>

theorem anonymous_requests_change_nothing:
  assumes "\<not> is_admin s"
  shows "admin cfg req s = (Redirect ''/admin/login'', s)
         \<and> delete_resource rid s = (Redirect ''/admin/login'', s)"
  using assms by (simp add: admin_anonymous delete_anonymous)

theorem anonymous_requests_change_nothing_witness:
  "\<not> is_admin anonymous_state
   \<and> admin example_config dangling_upload anonymous_state =
       (Redirect ''/admin/login'', anonymous_state)
   \<and> delete_resource 1 anonymous_state = (Redirect ''/admin/login'', anonymous_state)"
proof -
  have a: "\<not> is_admin anonymous_state"
    by (simp add: is_admin_def anonymous_state_def)
  show ?thesis
    using anonymous_requests_change_nothing [OF a, of example_config dangling_upload 1] a
    by simp
qed

text \<open>
  C10. When the query parameter \<open>type\<close> is absent or is any string other than
  pdf, image and video, the listing of the admin page is the whole table of
  resources, in its order: for a request that is not a POST the page is rendered
  with the resources and categories of the unchanged state, and whenever the
  handling of a POST comes back without an error the page is rendered with all the
  resources of the state it left.
\<close>

theorem admin_listing_ignores_unknown_type:
  assumes "is_admin s"
    and "args req ''type'' \<notin> {Some ''pdf'', Some ''image'', Some ''video''}"
  shows "admin_listing (args req ''type'') rows = rows
         \<and> (req_method req \<noteq> ''POST'' \<longrightarrow>
              admin cfg req s = (Render_admin (resources s) (categories s), s))
         \<and> (\<forall>s'. admin_post cfg req s = Inr s' \<longrightarrow>
              admin cfg req s = (Render_admin (resources s') (categories s), s'))"
  using assms
  by (simp add: admin_listing_unfiltered admin_reaches_listing admin_post_other_method)

theorem admin_listing_ignores_unknown_type_witness:
  "is_admin example_state
   \<and> args (get_request [(''type'', ''PDF'')]) ''type'' \<notin> {Some ''pdf'', Some ''image'', Some ''video''}
   \<and> req_method (get_request [(''type'', ''PDF'')]) \<noteq> ''POST''
   \<and> admin example_config (get_request [(''type'', ''PDF'')]) example_state =
       (Render_admin [example_resource] [\<lparr>cat_id = 1, name = default_name\<rparr>], example_state)"
proof -
  have a: "is_admin example_state" by (simp add: is_admin_def example_state_def)
  have b: "args (get_request [(''type'', ''PDF'')]) ''type''
             \<notin> {Some ''pdf'', Some ''image'', Some ''video''}"
    by (simp add: get_request_def)
  have c: "req_method (get_request [(''type'', ''PDF'')]) \<noteq> ''POST''"
    by (simp add: get_request_def)
  have d: "resources example_state = [example_resource]"
    "categories example_state = [\<lparr>cat_id = 1, name = default_name\<rparr>]"
    by (simp_all add: example_state_def)
  show ?thesis
    using admin_listing_ignores_unknown_type [OF a b, of "[]" example_config] a b c
    by (simp add: d)
qed

lemma query_first_None: "query_first rows = None \<longleftrightarrow> rows = []"
  by (cases rows) (simp_all add: query_first_def)











lemma name_not_found:
  "query_first (filter (\<lambda>c. name c = n) cs) = None \<longleftrightarrow> n \<notin> name ` set cs"
  by (auto simp: query_first_None filter_empty_conv)

lemma create_category_rejected:
  assumes "form req ''new_category'' = Some raw"
    and "str_strip cfg raw = [] \<or> str_strip cfg raw \<in> name ` set (categories s)"
  shows "admin_create_category cfg req s =
           Inr (flash Nom_invalide_ou_deja_utilise ''error'' s)"
  using assms by (auto simp: admin_create_category_def Let_def name_not_found)

lemma create_category_accepted:
  assumes "form req ''new_category'' = Some raw"
    and "str_strip cfg raw \<noteq> []" and "str_strip cfg raw \<notin> name ` set (categories s)"
  shows "admin_create_category cfg req s =
           Inr (flash Categorie_creee ''success'' (add_category (str_strip cfg raw) s))"
  using assms by (simp add: admin_create_category_def Let_def name_not_found)

lemma add_category_fields:
  "categories (add_category n s) =
     categories s @ [\<lparr>cat_id = next_id (map cat_id (categories s)), name = n\<rparr>]"
  "resources (add_category n s) = resources s"
  "uploads (add_category n s) = uploads s"
  "unremovable (add_category n s) = unremovable s"
  "session_admin (add_category n s) = session_admin s"
  "flashes (add_category n s) = flashes s"
  by (simp_all add: add_category_def)

text \<open>
  C5. In an admin session, a POST of the action \<open>create_category\<close> with a name
  trims the name with Python's \<open>strip\<close> (whatever characters it removes) and
  then: when nothing is left, or when a category of exactly the trimmed name
  exists, it flashes the one message the code has for both cases, "Nom invalide ou
  deja utilise." (category error), and the categories are those of before;
  otherwise it appends a category of the trimmed name, flashes "Categorie creee
  avec succes !", and the category is in the table that every later request
  reads (a later GET of the admin page is rendered with it).
\<close>

theorem create_category_outcomes:
  assumes "is_admin s"
    and "req_method req = ''POST''"
    and "form req ''action'' = Some ''create_category''"
    and "form req ''new_category'' = Some raw"
  shows "(str_strip cfg raw = [] \<longrightarrow>
            snd (admin cfg req s) = flash Nom_invalide_ou_deja_utilise ''error'' s
            \<and> categories (snd (admin cfg req s)) = categories s)
         \<and> (str_strip cfg raw \<in> name ` set (categories s) \<longrightarrow>
            snd (admin cfg req s) = flash Nom_invalide_ou_deja_utilise ''error'' s
            \<and> categories (snd (admin cfg req s)) = categories s)
         \<and> (str_strip cfg raw \<noteq> [] \<and> str_strip cfg raw \<notin> name ` set (categories s) \<longrightarrow>
            snd (admin cfg req s) =
              flash Categorie_creee ''success'' (add_category (str_strip cfg raw) s)
            \<and> categories (snd (admin cfg req s)) =
                categories s @
                  [\<lparr>cat_id = next_id (map cat_id (categories s)), name = str_strip cfg raw\<rparr>]
            \<and> str_strip cfg raw \<in> name ` set (categories (snd (admin cfg req s)))
            \<and> (\<forall>req'. req_method req' \<noteq> ''POST'' \<longrightarrow>
                 (\<exists>rows. fst (admin cfg req' (snd (admin cfg req s))) =
                    Render_admin rows
                      (categories s @
                        [\<lparr>cat_id = next_id (map cat_id (categories s)),
                          name = str_strip cfg raw\<rparr>]))))"
proof (intro conjI impI allI)
  have p: "admin_post cfg req s = admin_create_category cfg req s"
    using assms(2,3) by (rule admin_post_create)
  {
    assume "str_strip cfg raw = [] \<or> str_strip cfg raw \<in> name ` set (categories s)"
    with assms(4)
    have "admin_create_category cfg req s =
            Inr (flash Nom_invalide_ou_deja_utilise ''error'' s)"
      by (rule create_category_rejected)
    with p assms(1)
    have "snd (admin cfg req s) = flash Nom_invalide_ou_deja_utilise ''error'' s"
      by (simp add: admin_reaches_listing)
  }
  note rejected = this
  show "snd (admin cfg req s) = flash Nom_invalide_ou_deja_utilise ''error'' s"
    if "str_strip cfg raw = []" using that rejected by simp
  then show "categories (snd (admin cfg req s)) = categories s"
    if "str_strip cfg raw = []" using that by (simp add: flash_fields)
  show "snd (admin cfg req s) = flash Nom_invalide_ou_deja_utilise ''error'' s"
    if "str_strip cfg raw \<in> name ` set (categories s)" using that rejected by simp
  then show "categories (snd (admin cfg req s)) = categories s"
    if "str_strip cfg raw \<in> name ` set (categories s)" using that by (simp add: flash_fields)
  {
    assume n: "str_strip cfg raw \<noteq> [] \<and> str_strip cfg raw \<notin> name ` set (categories s)"
    with assms(4)
    have "admin_create_category cfg req s =
            Inr (flash Categorie_creee ''success'' (add_category (str_strip cfg raw) s))"
      by (simp add: create_category_accepted)
    with p assms(1)
    have "snd (admin cfg req s) =
            flash Categorie_creee ''success'' (add_category (str_strip cfg raw) s)"
      by (simp add: admin_reaches_listing)
  }
  note accepted = this
  show "snd (admin cfg req s) =
          flash Categorie_creee ''success'' (add_category (str_strip cfg raw) s)"
    if "str_strip cfg raw \<noteq> [] \<and> str_strip cfg raw \<notin> name ` set (categories s)"
    using that by (rule accepted)
  show "categories (snd (admin cfg req s)) =
          categories s @
            [\<lparr>cat_id = next_id (map cat_id (categories s)), name = str_strip cfg raw\<rparr>]"
    if "str_strip cfg raw \<noteq> [] \<and> str_strip cfg raw \<notin> name ` set (categories s)"
    using accepted [OF that] by (simp add: flash_fields add_category_fields)
  show "str_strip cfg raw \<in> name ` set (categories (snd (admin cfg req s)))"
    if "str_strip cfg raw \<noteq> [] \<and> str_strip cfg raw \<notin> name ` set (categories s)"
    using accepted [OF that] by (simp add: flash_fields add_category_fields)
  show "\<exists>rows. fst (admin cfg req' (snd (admin cfg req s))) =
          Render_admin rows
            (categories s @
              [\<lparr>cat_id = next_id (map cat_id (categories s)), name = str_strip cfg raw\<rparr>])"
    if "str_strip cfg raw \<noteq> [] \<and> str_strip cfg raw \<notin> name ` set (categories s)"
      and "req_method req' \<noteq> ''POST''" for req'
  proof -
    let ?s' = "snd (admin cfg req s)"
    have s': "?s' = flash Categorie_creee ''success'' (add_category (str_strip cfg raw) s)"
      using that(1) by (rule accepted)
    have "is_admin ?s'"
      using assms(1) by (simp add: s' is_admin_def flash_fields add_category_fields)
    moreover have "admin_post cfg req' ?s' = Inr ?s'"
      using that(2) by (rule admin_post_other_method)
    ultimately have "admin cfg req' ?s' =
        (Render_admin (admin_listing (args req' ''type'') (resources ?s')) (categories ?s'), ?s')"
      by (rule admin_reaches_listing)
    then show ?thesis
      by (simp add: s' flash_fields add_category_fields)
  qed
qed

theorem create_category_outcomes_witness:
  "is_admin example_state
   \<and> req_method (post [(''action'', ''create_category''), (''new_category'', '' Cours  '')] [])
       = ''POST''
   \<and> form (post [(''action'', ''create_category''), (''new_category'', '' Cours  '')] [])
        ''action'' = Some ''create_category''
   \<and> form (post [(''action'', ''create_category''), (''new_category'', '' Cours  '')] [])
        ''new_category'' = Some '' Cours  ''
   \<and> str_strip example_config '' Cours  '' \<noteq> []
   \<and> str_strip example_config '' Cours  '' \<notin> name ` set (categories example_state)
   \<and> categories
        (snd (admin example_config
               (post [(''action'', ''create_category''), (''new_category'', '' Cours  '')] [])
               example_state))
       = [\<lparr>cat_id = 1, name = default_name\<rparr>, \<lparr>cat_id = 2, name = ''Cours''\<rparr>]
   \<and> str_strip example_config ''   '' = []
   \<and> categories
        (snd (admin example_config
               (post [(''action'', ''create_category''), (''new_category'', ''   '')] [])
               example_state))
       = [\<lparr>cat_id = 1, name = default_name\<rparr>]
   \<and> str_strip example_config default_name \<in> name ` set (categories example_state)
   \<and> categories
        (snd (admin example_config
               (post [(''action'', ''create_category''), (''new_category'', default_name)] [])
               example_state))
       = [\<lparr>cat_id = 1, name = default_name\<rparr>]"
proof -
  let ?new = "post [(''action'', ''create_category''), (''new_category'', '' Cours  '')] []"
  let ?blank = "post [(''action'', ''create_category''), (''new_category'', ''   '')] []"
  let ?dup = "post [(''action'', ''create_category''), (''new_category'', default_name)] []"
  have a: "is_admin example_state" by (simp add: is_admin_def example_state_def)
  have m: "req_method ?new = ''POST''" "req_method ?blank = ''POST''" "req_method ?dup = ''POST''"
    by (simp_all add: post_def)
  have k: "form ?new ''action'' = Some ''create_category''"
    "form ?blank ''action'' = Some ''create_category''"
    "form ?dup ''action'' = Some ''create_category''"
    by (simp_all add: post_def)
  have n: "form ?new ''new_category'' = Some '' Cours  ''"
    "form ?blank ''new_category'' = Some ''   ''"
    "form ?dup ''new_category'' = Some default_name"
    by (simp_all add: post_def)
  have a1: "ascii_strip '' Cours  '' = ''Cours''" by code_simp
  have a2: "ascii_strip ''   '' = []" by code_simp
  have a3: "ascii_strip default_name = default_name" by code_simp
  have s1: "str_strip example_config '' Cours  '' = ''Cours''"
    by (simp only: example_config_fields a1)
  have s2: "str_strip example_config ''   '' = []"
    by (simp only: example_config_fields a2)
  have s3: "str_strip example_config default_name = default_name"
    by (simp only: example_config_fields a3)
  have d: "default_name \<noteq> ''Cours''" by code_simp
  have c: "categories example_state = [\<lparr>cat_id = 1, name = default_name\<rparr>]"
    by (simp add: example_state_def)
  have i: "next_id [1] = 2" by (simp add: next_id_def)
  have h1: "str_strip example_config '' Cours  '' \<noteq> []
      \<and> str_strip example_config '' Cours  '' \<notin> name ` set (categories example_state)"
    using d by (simp add: s1 c)
  have h3: "str_strip example_config default_name \<in> name ` set (categories example_state)"
    by (simp add: s3 c)
  note t1 = create_category_outcomes [OF a m(1) k(1) n(1), of example_config,
              THEN conjunct2, THEN conjunct2, THEN mp, OF h1, THEN conjunct2, THEN conjunct1]
  note t2 = create_category_outcomes [OF a m(2) k(2) n(2), of example_config,
              THEN conjunct1, THEN mp, OF s2, THEN conjunct2]
  note t3 = create_category_outcomes [OF a m(3) k(3) n(3), of example_config,
              THEN conjunct2, THEN conjunct1, THEN mp, OF h3, THEN conjunct2]
  have r1: "categories (snd (admin example_config ?new example_state))
       = [\<lparr>cat_id = 1, name = default_name\<rparr>, \<lparr>cat_id = 2, name = ''Cours''\<rparr>]"
    using t1 by (simp add: c s1 i)
  have r2: "categories (snd (admin example_config ?blank example_state))
       = [\<lparr>cat_id = 1, name = default_name\<rparr>]"
    using t2 by (simp add: c)
  have r3: "categories (snd (admin example_config ?dup example_state))
       = [\<lparr>cat_id = 1, name = default_name\<rparr>]"
    using t3 by (simp add: c)
  show ?thesis
    by (intro conjI)
       (rule a, rule m(1), rule k(1), rule n(1), rule h1 [THEN conjunct1],
        rule h1 [THEN conjunct2], rule r1, rule s2, rule r2, rule h3, rule r3)
qed

lemma upload_not_allowed:
  assumes "form req ''title'' = Some t" and "t \<noteq> []"
    and "form req ''category'' = Some cid" and "cid \<noteq> []"
    and "files req ''file'' = Some f" and "fs_filename f \<noteq> []"
    and "allowed_file (str_lower cfg) (fs_filename f) = Inr False"
  shows "admin_upload_resource cfg req s =
           Inr (flash Fichier_invalide_ou_extension_non_autorisee ''error'' s)"
  using assms
  by (simp add: admin_upload_resource_def Let_def truthy_def truthy_file_def)

lemma upload_unsupported:
  assumes "form req ''title'' = Some t" and "t \<noteq> []"
    and "form req ''category'' = Some cid" and "cid \<noteq> []"
    and "files req ''file'' = Some f"
    and "fs_filename f = base @ CHR ''.'' # suffix" and "CHR ''.'' \<notin> set suffix"
    and "contains_key ALLOWED_EXTENSIONS (str_lower cfg suffix)"
    and "get_file_type_from_ext (str_lower cfg) (str_lower cfg suffix) = None"
  shows "admin_upload_resource cfg req s =
           Inr (flash Type_de_fichier_non_supporte ''error'' s)"
proof -
  have a: "allowed_file (str_lower cfg) (fs_filename f) = Inr True"
    using assms(6,7,8) by (simp add: allowed_file_split)
  have g: "getitem (rsplit (fs_filename f) (CHR ''.'')) 1 = Inr suffix"
    using assms(6,7) by (simp add: getitem_rsplit del: One_nat_def)
  have e: "fs_filename f \<noteq> []" using assms(6) by simp
  show ?thesis
    unfolding admin_upload_resource_def Let_def
    using assms(1-5) e a g assms(9)
    by (simp add: truthy_def truthy_file_def del: One_nat_def)
qed

lemma upload_allowed:
  assumes "form req ''title'' = Some t" and "t \<noteq> []"
    and "form req ''category'' = Some cid" and "cid \<noteq> []"
    and "files req ''file'' = Some f"
    and "fs_filename f = base @ CHR ''.'' # suffix" and "CHR ''.'' \<notin> set suffix"
    and "contains_key ALLOWED_EXTENSIONS (str_lower cfg suffix)"
    and "get_file_type_from_ext (str_lower cfg) (str_lower cfg suffix) = Some ft"
  shows "admin_upload_resource cfg req s =
           (if secure_filename cfg (fs_filename f) = [] then Inl (Raised IsADirectoryError)
            else Inr (flash Contenu_ajoute ''success''
                       (add_resource t (form req ''description'')
                          (secure_filename cfg (fs_filename f)) ft cid
                          (s\<lparr>uploads := (uploads s)
                               (secure_filename cfg (fs_filename f) \<mapsto> fs_content f)\<rparr>))))"
proof -
  have a: "allowed_file (str_lower cfg) (fs_filename f) = Inr True"
    using assms(6,7,8) by (simp add: allowed_file_split)
  have g: "getitem (rsplit (fs_filename f) (CHR ''.'')) 1 = Inr suffix"
    using assms(6,7) by (simp add: getitem_rsplit del: One_nat_def)
  have n: "ft \<noteq> []"
    using classify_values [OF assms(9)] by auto
  have e: "fs_filename f \<noteq> []" using assms(6) by simp
  show ?thesis
    unfolding admin_upload_resource_def Let_def
    using assms(1-5) e a g assms(9) n
    by (simp add: truthy_def truthy_file_def del: One_nat_def)
qed

text \<open>What an upload leaves behind, one case for each way through the branch.\<close>

lemma upload_outcome:
  assumes "admin_upload_resource cfg req s = Inr s'"
  shows "s' = flash Tous_les_champs_sont_obligatoires ''error'' s
         \<or> s' = flash Fichier_invalide_ou_extension_non_autorisee ''error'' s
         \<or> (s' = flash Type_de_fichier_non_supporte ''error'' s
             \<and> (\<exists>x. contains_key ALLOWED_EXTENSIONS x
                    \<and> get_file_type_from_ext (str_lower cfg) x = None))
         \<or> (\<exists>t d n ft cid b.
               s' = flash Contenu_ajoute ''success''
                      (add_resource t d n ft cid (s\<lparr>uploads := (uploads s)(n \<mapsto> b)\<rparr>)))"
proof (cases "truthy (form req ''title'') \<and> truthy (form req ''category'')
              \<and> truthy_file (files req ''file'')")
  case False
  then have "admin_upload_resource cfg req s =
               Inr (flash Tous_les_champs_sont_obligatoires ''error'' s)"
    by (rule upload_missing)
  with assms show ?thesis by simp
next
  case True
  then obtain t cid f
    where p: "form req ''title'' = Some t" "t \<noteq> []"
      "form req ''category'' = Some cid" "cid \<noteq> []"
      "files req ''file'' = Some f" "fs_filename f \<noteq> []"
    by (auto simp: truthy_def truthy_file_def split: option.splits)
  from allowed_file_total [of "str_lower cfg" "fs_filename f"] obtain b
    where b: "allowed_file (str_lower cfg) (fs_filename f) = Inr b" by blast
  show ?thesis
  proof (cases b)
    case False
    with b have "allowed_file (str_lower cfg) (fs_filename f) = Inr False" by simp
    from upload_not_allowed [OF p this] assms show ?thesis by simp
  next
    case True
    with b have "allowed_file (str_lower cfg) (fs_filename f) = Inr True" by simp
    from allowed_file_True [OF this] obtain base suffix
      where w: "fs_filename f = base @ CHR ''.'' # suffix" "CHR ''.'' \<notin> set suffix"
        "contains_key ALLOWED_EXTENSIONS (str_lower cfg suffix)"
      by blast
    show ?thesis
    proof (cases "get_file_type_from_ext (str_lower cfg) (str_lower cfg suffix)")
      case None
      from upload_unsupported [OF p(1-5) w None, of s] assms
      have "s' = flash Type_de_fichier_non_supporte ''error'' s" by simp
      with w(3) None show ?thesis by blast
    next
      case (Some ft)
      from upload_allowed [OF p(1-5) w Some, of s] assms
      have "s' = flash Contenu_ajoute ''success''
                   (add_resource t (form req ''description'')
                      (secure_filename cfg (fs_filename f)) ft cid
                      (s\<lparr>uploads := (uploads s)
                           (secure_filename cfg (fs_filename f) \<mapsto> fs_content f)\<rparr>))"
        by (auto split: if_splits)
      then show ?thesis by blast
    qed
  qed
qed

lemma create_category_outcome:
  assumes "admin_create_category cfg req s = Inr s'"
  shows "s' = flash Nom_invalide_ou_deja_utilise ''error'' s
         \<or> (\<exists>n. n \<notin> name ` set (categories s)
               \<and> s' = flash Categorie_creee ''success'' (add_category n s))"
proof -
  from assms obtain raw where r: "form req ''new_category'' = Some raw"
    by (auto simp: admin_create_category_def split: option.splits)
  show ?thesis
  proof (cases "str_strip cfg raw = [] \<or> str_strip cfg raw \<in> name ` set (categories s)")
    case True
    from create_category_rejected [OF r True] assms show ?thesis by simp
  next
    case False
    then have "str_strip cfg raw \<noteq> []" "str_strip cfg raw \<notin> name ` set (categories s)"
      by simp_all
    from create_category_accepted [OF r this] assms
    have "s' = flash Categorie_creee ''success'' (add_category (str_strip cfg raw) s)" by simp
    with \<open>str_strip cfg raw \<notin> name ` set (categories s)\<close> show ?thesis by blast
  qed
qed

lemma admin_post_cases:
  assumes "admin_post cfg req s = Inr s'"
  shows "s' = s \<or> admin_create_category cfg req s = Inr s'
         \<or> admin_upload_resource cfg req s = Inr s'"
  using assms by (auto simp: admin_post_def Let_def split: if_splits)

lemma admin_state:
  "snd (admin cfg req s) = s \<or> admin_post cfg req s = Inr (snd (admin cfg req s))"
  by (cases "admin_post cfg req s") (simp_all add: admin_def)

lemma add_resource_fields:
  "categories (add_resource t d n ft cid s) = categories s"
  "resources (add_resource t d n ft cid s) =
     resources s @
       [\<lparr>res_id = next_id (map res_id (resources s)), title = t, description = d,
         filename = n, file_type = ft, category_id = cid\<rparr>]"
  "uploads (add_resource t d n ft cid s) = uploads s"
  "unremovable (add_resource t d n ft cid s) = unremovable s"
  "session_admin (add_resource t d n ft cid s) = session_admin s"
  "flashes (add_resource t d n ft cid s) = flashes s"
  by (simp_all add: add_resource_def)

lemma admin_post_flashes:
  assumes "\<And>x. x \<in> set [''pdf'', ''jpg'', ''jpeg'', ''png'', ''gif'', ''webp'',
                            ''mp4'', ''avi'', ''mov'', ''mkv'', ''webm'']
                 \<Longrightarrow> str_lower cfg x = x"
    and "admin_post cfg req s = Inr s'"
    and "(Type_de_fichier_non_supporte, c) \<in> set (flashes s')"
  shows "(Type_de_fichier_non_supporte, c) \<in> set (flashes s)"
proof -
  from admin_post_cases [OF assms(2)] consider
      (same) "s' = s"
    | (create) "admin_create_category cfg req s = Inr s'"
    | (upload) "admin_upload_resource cfg req s = Inr s'"
    by blast
  then show ?thesis
  proof cases
    case same
    with assms(3) show ?thesis by simp
  next
    case create
    from create_category_outcome [OF this] assms(3) show ?thesis
      by (auto simp: flash_fields add_category_fields)
  next
    case upload
    from upload_outcome [OF this] consider
        (missing) "s' = flash Tous_les_champs_sont_obligatoires ''error'' s"
      | (invalid) "s' = flash Fichier_invalide_ou_extension_non_autorisee ''error'' s"
      | (unsupported) "\<exists>x. contains_key ALLOWED_EXTENSIONS x
                    \<and> get_file_type_from_ext (str_lower cfg) x = None"
      | (added) "\<exists>t d n ft cid b.
               s' = flash Contenu_ajoute ''success''
                      (add_resource t d n ft cid (s\<lparr>uploads := (uploads s)(n \<mapsto> b)\<rparr>))"
      by blast
    then show ?thesis
    proof cases
      case missing
      with assms(3) show ?thesis by (simp add: flash_fields)
    next
      case invalid
      with assms(3) show ?thesis by (simp add: flash_fields)
    next
      case unsupported
      then obtain x where "contains_key ALLOWED_EXTENSIONS x"
        and "get_file_type_from_ext (str_lower cfg) x = None" by blast
      with classify_extension [of "str_lower cfg" x, OF assms(1)]
      show ?thesis by simp
    next
      case added
      with assms(3) show ?thesis by (auto simp: flash_fields add_resource_fields)
    qed
  qed
qed

text \<open>
  C9. Python's \<open>lower\<close> is \<open>str_lower cfg\<close>; one fact about it is used: the
  eleven extensions are already lowered. A file name that \<open>allowed_file\<close>
  accepts has a suffix after its last dot, and the classifier gives the lowered
  suffix a media type that is not empty: the test \<open>not file_type\<close> of the
  upload is false there. So \<open>admin\<close> never flashes "Type de fichier non
  supporte.": such a message is among the flashed messages after a request only
  when it was among them before.
\<close>

theorem unsupported_type_unreachable:
  assumes "\<And>x. x \<in> set [''pdf'', ''jpg'', ''jpeg'', ''png'', ''gif'', ''webp'',
                            ''mp4'', ''avi'', ''mov'', ''mkv'', ''webm'']
                 \<Longrightarrow> str_lower cfg x = x"
  shows
  "(allowed_file (str_lower cfg) fname = Inr True \<longrightarrow>
      (\<exists>suffix ft. getitem (rsplit fname (CHR ''.'')) 1 = Inr suffix
         \<and> get_file_type_from_ext (str_lower cfg) (str_lower cfg suffix) = Some ft
         \<and> ft \<noteq> []))
   \<and> ((Type_de_fichier_non_supporte, c) \<in> set (flashes (snd (admin cfg req s))) \<longrightarrow>
        (Type_de_fichier_non_supporte, c) \<in> set (flashes s))"
proof (intro conjI impI)
  assume "allowed_file (str_lower cfg) fname = Inr True"
  from allowed_file_True [OF this] obtain base suffix
    where f: "fname = base @ CHR ''.'' # suffix" and n: "CHR ''.'' \<notin> set suffix"
      and k: "contains_key ALLOWED_EXTENSIONS (str_lower cfg suffix)"
    by blast
  have "get_file_type_from_ext (str_lower cfg) (str_lower cfg suffix) \<noteq> None"
    using assms k by (rule classify_extension)
  then obtain ft
    where t: "get_file_type_from_ext (str_lower cfg) (str_lower cfg suffix) = Some ft"
    by auto
  have "getitem (rsplit fname (CHR ''.'')) 1 = Inr suffix"
    unfolding f using n by (rule getitem_rsplit)
  moreover have "ft \<noteq> []" using classify_values [OF t] by auto
  ultimately show "\<exists>suffix ft. getitem (rsplit fname (CHR ''.'')) 1 = Inr suffix
         \<and> get_file_type_from_ext (str_lower cfg) (str_lower cfg suffix) = Some ft
         \<and> ft \<noteq> []"
    using t by blast
next
  assume a: "(Type_de_fichier_non_supporte, c) \<in> set (flashes (snd (admin cfg req s)))"
  from admin_state [of cfg req s]
  show "(Type_de_fichier_non_supporte, c) \<in> set (flashes s)"
  proof
    assume "snd (admin cfg req s) = s"
    with a show ?thesis by simp
  next
    assume "admin_post cfg req s = Inr (snd (admin cfg req s))"
    with assms show ?thesis using a by (rule admin_post_flashes)
  qed
qed

lemma dangling_upload_fields:
  "req_method dangling_upload = ''POST''"
  "form dangling_upload ''action'' = Some ''upload_resource''"
  "form dangling_upload ''title'' = Some ''Report''"
  "form dangling_upload ''description'' = None"
  "form dangling_upload ''category'' = Some ''999''"
  "files dangling_upload ''file'' = Some example_file"
  "args dangling_upload ''type'' = None"
  by (simp_all add: dangling_upload_def post_def)

lemma dangling_upload_post:
  "admin_post example_config dangling_upload example_state =
     Inr (flash Contenu_ajoute ''success''
           (add_resource ''Report'' None ''doc.pdf'' ''pdf'' ''999''
              (example_state\<lparr>uploads := (uploads example_state)(''doc.pdf'' \<mapsto> ''%PDF'')\<rparr>)))"
proof -
  have n: "fs_filename example_file = ''doc'' @ CHR ''.'' # ''pdf''"
    "fs_content example_file = ''%PDF''"
    by (simp_all add: example_file_def)
  have d: "CHR ''.'' \<notin> set ''pdf''" by simp
  have l: "ascii_lower ''pdf'' = ''pdf''" by code_simp
  have k: "contains_key ALLOWED_EXTENSIONS (str_lower example_config ''pdf'')"
    unfolding example_config_fields l ALLOWED_EXTENSIONS_keys by simp
  have t: "get_file_type_from_ext (str_lower example_config) (str_lower example_config ''pdf'')
             = Some ''pdf''"
    unfolding example_config_fields l classify_table by (simp add: l)
  have e: "secure_filename example_config (fs_filename example_file) = ''doc.pdf''"
    by (simp add: example_config_def example_file_def)
  have "admin_upload_resource example_config dangling_upload example_state =
     Inr (flash Contenu_ajoute ''success''
           (add_resource ''Report'' None ''doc.pdf'' ''pdf'' ''999''
              (example_state\<lparr>uploads := (uploads example_state)(''doc.pdf'' \<mapsto> ''%PDF'')\<rparr>)))"
    using upload_allowed [OF dangling_upload_fields(3) _ dangling_upload_fields(5) _
            dangling_upload_fields(6) n(1) d k t, of example_state]
    by (simp add: e n(2) dangling_upload_fields(4))
  then show ?thesis
    by (simp add: admin_post_upload dangling_upload_fields)
qed

theorem unsupported_type_unreachable_witness:
  "list_all (\<lambda>x. str_lower example_config x = x)
     [''pdf'', ''jpg'', ''jpeg'', ''png'', ''gif'', ''webp'',
      ''mp4'', ''avi'', ''mov'', ''mkv'', ''webm'']
   \<and> allowed_file (str_lower example_config) ''doc.pdf'' = Inr True
   \<and> (\<exists>suffix ft. getitem (rsplit ''doc.pdf'' (CHR ''.'')) 1 = Inr suffix
         \<and> get_file_type_from_ext (str_lower example_config)
              (str_lower example_config suffix) = Some ft
         \<and> ft \<noteq> [])
   \<and> (Type_de_fichier_non_supporte, ''error'') \<notin> set (flashes example_state)
   \<and> (Type_de_fichier_non_supporte, ''error'')
        \<notin> set (flashes (snd (admin example_config dangling_upload example_state)))"
proof -
  have h: "x \<in> set [''pdf'', ''jpg'', ''jpeg'', ''png'', ''gif'', ''webp'',
                      ''mp4'', ''avi'', ''mov'', ''mkv'', ''webm'']
           \<Longrightarrow> str_lower example_config x = x" for x
    unfolding example_config_fields by (rule ascii_lower_fixed)
  have h': "list_all (\<lambda>x. str_lower example_config x = x)
     [''pdf'', ''jpg'', ''jpeg'', ''png'', ''gif'', ''webp'',
      ''mp4'', ''avi'', ''mov'', ''mkv'', ''webm'']"
    unfolding list_all_iff using h by blast
  have a: "allowed_file (str_lower example_config) ''doc.pdf'' = Inr True"
    unfolding example_config_fields by code_simp
  have b: "(Type_de_fichier_non_supporte, ''error'') \<notin> set (flashes example_state)"
    by (simp add: example_state_fields)
  have t: "(allowed_file (str_lower example_config) ''doc.pdf'' = Inr True \<longrightarrow>
      (\<exists>suffix ft. getitem (rsplit ''doc.pdf'' (CHR ''.'')) 1 = Inr suffix
         \<and> get_file_type_from_ext (str_lower example_config)
              (str_lower example_config suffix) = Some ft
         \<and> ft \<noteq> []))
   \<and> ((Type_de_fichier_non_supporte, ''error'')
         \<in> set (flashes (snd (admin example_config dangling_upload example_state))) \<longrightarrow>
        (Type_de_fichier_non_supporte, ''error'') \<in> set (flashes example_state))"
    by (rule unsupported_type_unreachable) (rule h)
  have c: "\<exists>suffix ft. getitem (rsplit ''doc.pdf'' (CHR ''.'')) 1 = Inr suffix
         \<and> get_file_type_from_ext (str_lower example_config)
              (str_lower example_config suffix) = Some ft
         \<and> ft \<noteq> []"
    using t [THEN conjunct1, THEN mp, OF a] .
  have d: "(Type_de_fichier_non_supporte, ''error'')
        \<notin> set (flashes (snd (admin example_config dangling_upload example_state)))"
    using t [THEN conjunct2] b by blast
  show ?thesis by (intro conjI) (rule h', rule a, rule c, rule b, rule d)
qed

text \<open>
  C3 (the code does otherwise). The store holds one category, of id 1. An upload
  in an admin session with the title "Report", the file "doc.pdf" and the category
  "999" is not refused: the page is rendered, the file is written, the message
  "Contenu ajoute avec succes !" is flashed, and a resource row with
  \<open>category_id\<close> "999" is in the table.
\<close>

theorem dangling_category_upload_commits:
  "categories example_state = [\<lparr>cat_id = 1, name = default_name\<rparr>]
   \<and> form dangling_upload ''category'' = Some ''999''
   \<and> fst (admin example_config dangling_upload example_state) =
       Render_admin
         [example_resource,
          \<lparr>res_id = 2, title = ''Report'', description = None, filename = ''doc.pdf'',
           file_type = ''pdf'', category_id = ''999''\<rparr>]
         [\<lparr>cat_id = 1, name = default_name\<rparr>]
   \<and> resources (snd (admin example_config dangling_upload example_state)) =
       [example_resource,
        \<lparr>res_id = 2, title = ''Report'', description = None, filename = ''doc.pdf'',
         file_type = ''pdf'', category_id = ''999''\<rparr>]
   \<and> categories (snd (admin example_config dangling_upload example_state)) =
       [\<lparr>cat_id = 1, name = default_name\<rparr>]
   \<and> uploads (snd (admin example_config dangling_upload example_state)) ''doc.pdf'' =
       Some ''%PDF''
   \<and> flashes (snd (admin example_config dangling_upload example_state)) =
       [(Contenu_ajoute, ''success'')]"
proof -
  have a: "is_admin example_state" by (simp add: is_admin_def example_state_def)
  have i: "next_id [res_id example_resource] = 2"
    by (simp add: next_id_def example_resource_def)
  note r = admin_reaches_listing [OF a dangling_upload_post]
  show ?thesis
    by (simp add: r dangling_upload_fields example_state_fields flash_fields
          add_resource_fields admin_listing_def i)
qed

section \<open>Facts about the startup\<close>

lemma bootstrap_nonempty: "categories s \<noteq> [] \<Longrightarrow> bootstrap s = s"
  by (simp add: bootstrap_def query_first_None)

lemma bootstrap_empty:
  "categories s = [] \<Longrightarrow> categories (bootstrap s) = [\<lparr>cat_id = 1, name = default_name\<rparr>]"
  by (simp add: bootstrap_def query_first_None add_category_fields next_id_def)

lemma bootstrap_seeded: "categories (bootstrap s) \<noteq> []"
  by (cases "categories s = []") (simp_all add: bootstrap_empty bootstrap_nonempty)

lemma bootstrap_idem: "bootstrap (bootstrap s) = bootstrap s"
  using bootstrap_seeded by (rule bootstrap_nonempty)

lemma bootstrap_funpow: "(bootstrap ^^ Suc n) s = bootstrap s"
  by (induction n) (simp_all add: bootstrap_idem)

lemma count_default_bootstrap:
  assumes "count_default s \<le> 1"
  shows "count_default (bootstrap s) \<le> 1"
proof (cases "categories s = []")
  case True
  then show ?thesis by (simp add: count_default_def bootstrap_empty)
next
  case False
  with assms show ?thesis by (simp add: bootstrap_nonempty)
qed

lemma distinct_names_count:
  "distinct (map name cs) \<Longrightarrow> length (filter (\<lambda>c. name c = d) cs) \<le> 1"
proof (induction cs)
  case Nil
  show ?case by simp
next
  case (Cons c cs)
  show ?case
  proof (cases "name c = d")
    case True
    with Cons.prems have "d \<notin> name ` set cs" by auto
    then have "filter (\<lambda>c. name c = d) cs = []"
      by (auto simp: filter_empty_conv)
    with True show ?thesis by simp
  next
    case False
    with Cons show ?thesis by simp
  qed
qed

lemma bootstrap_distinct:
  assumes "distinct (map name (categories s))"
  shows "distinct (map name (categories (bootstrap s)))"
proof (cases "categories s = []")
  case True
  then show ?thesis by (simp add: bootstrap_empty)
next
  case False
  with assms show ?thesis by (simp add: bootstrap_nonempty)
qed

lemma admin_login_categories: "categories (snd (admin_login cfg req s)) = categories s"
  by (simp add: admin_login_def flash_fields split: option.splits)

lemma os_remove_categories: "os_remove n s = Inr s' \<Longrightarrow> categories s' = categories s"
  by (auto simp: os_remove_def split: if_splits)

lemma delete_resource_categories: "categories (snd (delete_resource rid s)) = categories s"
  by (auto simp: delete_resource_def Let_def flash_fields delete_row_def
           dest: os_remove_categories split: option.splits sum.splits)

lemma admin_post_distinct:
  assumes "admin_post cfg req s = Inr s'" and "distinct (map name (categories s))"
  shows "distinct (map name (categories s'))"
proof -
  from admin_post_cases [OF assms(1)] consider
      (same) "s' = s"
    | (create) "admin_create_category cfg req s = Inr s'"
    | (upload) "admin_upload_resource cfg req s = Inr s'"
    by blast
  then show ?thesis
  proof cases
    case same
    with assms(2) show ?thesis by simp
  next
    case create
    from create_category_outcome [OF this] assms(2) show ?thesis
      by (auto simp: flash_fields add_category_fields)
  next
    case upload
    from upload_outcome [OF this] assms(2) show ?thesis
      by (auto simp: flash_fields add_resource_fields)
  qed
qed

lemma step_distinct:
  assumes "distinct (map name (categories s))"
  shows "distinct (map name (categories (step cfg ev s)))"
proof (cases ev)
  case Startup
  with assms show ?thesis by (simp add: bootstrap_distinct)
next
  case (Login req)
  with assms show ?thesis by (simp add: admin_login_categories)
next
  case Logout
  with assms show ?thesis by (simp add: admin_logout_def)
next
  case (Admin req)
  from admin_state [of cfg req s]
  have "distinct (map name (categories (snd (admin cfg req s))))"
  proof
    assume "snd (admin cfg req s) = s"
    with assms show ?thesis by simp
  next
    assume "admin_post cfg req s = Inr (snd (admin cfg req s))"
    then show ?thesis using assms by (rule admin_post_distinct)
  qed
  with Admin show ?thesis by simp
next
  case (Delete rid)
  with assms show ?thesis by (simp add: delete_resource_categories)
qed

lemma run_distinct:
  "distinct (map name (categories s)) \<Longrightarrow> distinct (map name (categories (run cfg evs s)))"
  unfolding run_def by (induction evs arbitrary: s) (simp_all add: step_distinct)

text \<open>
  C8. The startup adds the default category ("General", with its accents) when
  the table of categories is empty, and only then: on a store with a category it
  changes nothing. Any number of startups in a row, one at least, leaves what the
  first one left, so a store with at most one category of the default name still
  has at most one after them. More generally, from a store whose category names
  are all different (the empty store, for one), no sequence of startups and
  requests leads to a store with two categories of the default name.
\<close>

theorem bootstrap_seeds_once:
  "(categories s \<noteq> [] \<longrightarrow> bootstrap s = s)
   \<and> (categories s = [] \<longrightarrow>
        categories (bootstrap s) = [\<lparr>cat_id = 1, name = default_name\<rparr>])
   \<and> (bootstrap ^^ Suc n) s = bootstrap s
   \<and> (count_default s \<le> 1 \<longrightarrow> count_default ((bootstrap ^^ n) s) \<le> 1)
   \<and> (distinct (map name (categories s)) \<longrightarrow> count_default (run cfg evs s) \<le> 1)"
proof (intro conjI impI)
  show "bootstrap s = s" if "categories s \<noteq> []"
    using that by (rule bootstrap_nonempty)
  show "categories (bootstrap s) = [\<lparr>cat_id = 1, name = default_name\<rparr>]"
    if "categories s = []"
    using that by (rule bootstrap_empty)
  show "(bootstrap ^^ Suc n) s = bootstrap s" by (rule bootstrap_funpow)
  show "count_default ((bootstrap ^^ n) s) \<le> 1" if "count_default s \<le> 1"
  proof (cases n)
    case 0
    with that show ?thesis by simp
  next
    case (Suc m)
    have "(bootstrap ^^ Suc m) s = bootstrap s" by (rule bootstrap_funpow)
    with Suc that show ?thesis by (simp only: count_default_bootstrap)
  qed
  show "count_default (run cfg evs s) \<le> 1" if "distinct (map name (categories s))"
    unfolding count_default_def
    using run_distinct [OF that] by (rule distinct_names_count)
qed

theorem bootstrap_seeds_once_witness:
  "categories empty_store = []
   \<and> categories (bootstrap empty_store) = [\<lparr>cat_id = 1, name = default_name\<rparr>]
   \<and> categories example_state \<noteq> []
   \<and> bootstrap example_state = example_state
   \<and> (bootstrap ^^ 3) empty_store = bootstrap empty_store
   \<and> count_default empty_store \<le> 1
   \<and> count_default ((bootstrap ^^ 3) empty_store) \<le> 1
   \<and> distinct (map name (categories empty_store))
   \<and> count_default
        (run example_config
           [Startup, Login (post [(''password'', ''@dmin123'')] []),
            Admin (post [(''action'', ''create_category''), (''new_category'', default_name)] []),
            Startup]
           empty_store) \<le> 1"
proof -
  let ?evs = "[Startup, Login (post [(''password'', ''@dmin123'')] []),
            Admin (post [(''action'', ''create_category''), (''new_category'', default_name)] []),
            Startup]"
  have a: "categories empty_store = []" by (simp add: empty_store_def)
  have b: "categories example_state \<noteq> []" by (simp add: example_state_def)
  have c: "count_default empty_store \<le> 1" by (simp add: count_default_def a)
  have d: "distinct (map name (categories empty_store))" by (simp add: a)
  have e: "Suc 2 = 3" by simp
  note t = bootstrap_seeds_once [of empty_store 2 example_config ?evs]
  note u = bootstrap_seeds_once [of example_state 2 example_config ?evs]
  have f: "categories (bootstrap empty_store) = [\<lparr>cat_id = 1, name = default_name\<rparr>]"
    using t [THEN conjunct2, THEN conjunct1, THEN mp, OF a] .
  have g: "bootstrap example_state = example_state"
    using u [THEN conjunct1, THEN mp, OF b] .
  have h: "(bootstrap ^^ 3) empty_store = bootstrap empty_store"
    using t [THEN conjunct2, THEN conjunct2, THEN conjunct1] by (simp only: e)
  have i: "count_default ((bootstrap ^^ 3) empty_store) \<le> 1"
    using bootstrap_seeds_once [of empty_store 3 example_config ?evs,
            THEN conjunct2, THEN conjunct2, THEN conjunct2, THEN conjunct1, THEN mp, OF c] .
  have j: "count_default (run example_config ?evs empty_store) \<le> 1"
    using t [THEN conjunct2, THEN conjunct2, THEN conjunct2, THEN conjunct2, THEN mp, OF d] .
  show ?thesis
    by (intro conjI) (rule a, rule f, rule b, rule g, rule h, rule c, rule i, rule d, rule j)
qed

end
